theory Spec2Isabelle
  imports Main
begin

section \<open>Provisioning states of a bare metal node (ironic/common/states.py)\<close>

text \<open>
  The module \<^verbatim>\<open>ironic/common/states.py\<close> names the provisioning states of a node and
  builds, at import time, one finite state machine \<^verbatim>\<open>machine = fsm.FSM()\<close> by a fixed
  sequence of \<^verbatim>\<open>add_state\<close> and \<^verbatim>\<open>add_transition\<close> calls. The class \<^verbatim>\<open>FSM\<close> lives in
  \<^verbatim>\<open>ironic/common/fsm.py\<close>; its operations are modelled from sections 3, 4 and 7 of the
  specification. The state names, the watchers and the construction of \<^verbatim>\<open>machine\<close> are
  translated from \<^verbatim>\<open>states.py\<close>.
\<close>

subsection \<open>Errors\<close>

text \<open>Modelled from the spec: the exception classes of \<^verbatim>\<open>fsm.py\<close>, absent from the
  sources, as the error taxonomy of section 7 lists them. A watcher is a caller-supplied
  callback and may raise anything; \<open>WatcherError\<close> stands for an exception raised inside
  a watcher.\<close>

datatype error =
    UnknownStateError
  | InvalidStateError
  | InvalidEventError
  | DuplicateStateError
  | DuplicateTransitionError
  | WatcherError string

subsection \<open>The state registry and transition engine\<close>

text \<open>Modelled from the spec: a watcher (section 3) receives \<open>(state, event)\<close> and acts
  on the world outside the engine (a log, in \<^verbatim>\<open>states.py\<close>). It returns the world it
  leaves behind, and the exception it raised if it raised one.\<close>

type_synonym 'w watcher = "string \<Rightarrow> string \<Rightarrow> 'w \<Rightarrow> error option \<times> 'w"

text \<open>Modelled from the spec: what the absent class \<^verbatim>\<open>FSM\<close> keeps for a state
  (section 3, State): \<open>stable\<close>, an optional \<open>target\<close>, and the two optional hooks given
  to \<^verbatim>\<open>add_state\<close>. The name is the key of the registry.\<close>

record 'w state_info =
  stable :: bool
  target :: "string option"
  on_enter_hook :: "'w watcher option"
  on_exit_hook :: "'w watcher option"

text \<open>Modelled from the spec: the fields of the absent class \<^verbatim>\<open>FSM\<close>: the registry
  of states, keyed by name, and the registered transitions. Section 3 describes a
  transition as a triple (source, destination, event), with the invariant that a
  (source, event) pair has at most one destination; the transitions are kept as the
  list of registered triples, in registration order, so that this invariant is a
  property of the engine's operations and not of the type.\<close>

record 'w FSM =
  states :: "string \<rightharpoonup> 'w state_info"
  transitions :: "(string \<times> string \<times> string) list"

text \<open>Modelled from the spec: \<^verbatim>\<open>fsm.FSM()\<close>, the constructor of the absent class
  \<^verbatim>\<open>FSM\<close>: an engine with no state and no transition.\<close>

definition FSM_init :: "'w FSM" where
  "FSM_init = \<lparr>states = Map.empty, transitions = []\<rparr>"

text \<open>Modelled from the spec: \<^verbatim>\<open>FSM.is_valid_state\<close> (section 4.1), absent from the
  sources: whether the name is registered.\<close>

definition is_valid_state :: "'w FSM \<Rightarrow> string \<Rightarrow> bool" where
  "is_valid_state m name = (states m name \<noteq> None)"

text \<open>Modelled from the spec: \<^verbatim>\<open>FSM.add_state\<close> (section 4.1), absent from the sources:
  registers a state and fails with \<open>DuplicateStateError\<close> if the name is already
  registered. The target may name a state registered later, so it is not checked here.\<close>

definition add_state ::
  "string \<Rightarrow> bool \<Rightarrow> string option \<Rightarrow> 'w watcher option \<Rightarrow> 'w watcher option
    \<Rightarrow> 'w FSM \<Rightarrow> error + 'w FSM" where
  "add_state name stbl tgt on_enter on_exit m =
     (if is_valid_state m name then Inl DuplicateStateError
      else Inr (m\<lparr>states := (states m)(name \<mapsto>
             \<lparr>stable = stbl, target = tgt,
              on_enter_hook = on_enter, on_exit_hook = on_exit\<rparr>)\<rparr>))"

text \<open>Modelled from the spec: \<^verbatim>\<open>FSM.is_stable\<close> (section 4.1), absent from the sources:
  fails with \<open>UnknownStateError\<close> if the name is unregistered.\<close>

definition is_stable :: "'w FSM \<Rightarrow> string \<Rightarrow> error + bool" where
  "is_stable m name =
     (case states m name of None \<Rightarrow> Inl UnknownStateError | Some st \<Rightarrow> Inr (stable st))"

text \<open>Modelled from the spec: \<^verbatim>\<open>FSM.target_for\<close> (section 4.1), absent from the sources:
  the target of a state, or none. Section 7 makes a query with a name that was never
  registered an \<open>UnknownStateError\<close>.\<close>

definition target_for :: "'w FSM \<Rightarrow> string \<Rightarrow> error + string option" where
  "target_for m name =
     (case states m name of None \<Rightarrow> Inl UnknownStateError | Some st \<Rightarrow> Inr (target st))"

text \<open>Modelled from the spec: the lookup in the registered mapping that
  \<^verbatim>\<open>add_transition\<close>, \<^verbatim>\<open>is_valid_event\<close> and \<^verbatim>\<open>process_event\<close> (step 4) make: the
  destination of the first registered triple with that source and event.\<close>

fun lookup_transition :: "(string \<times> string \<times> string) list \<Rightarrow> string \<Rightarrow> string \<Rightarrow> string option" where
  "lookup_transition [] source event = None"
| "lookup_transition ((s, d, e) # ts) source event =
     (if s = source \<and> e = event then Some d else lookup_transition ts source event)"

text \<open>Modelled from the spec: \<^verbatim>\<open>FSM.add_transition\<close> (section 4.2), absent from the
  sources: fails with \<open>UnknownStateError\<close> if the source or the destination was never
  registered, with \<open>DuplicateTransitionError\<close> if the (source, event) pair is already
  mapped to a different destination; registering the same triple again changes
  nothing.\<close>

definition add_transition :: "string \<Rightarrow> string \<Rightarrow> string \<Rightarrow> 'w FSM \<Rightarrow> error + 'w FSM" where
  "add_transition source destination event m =
     (if \<not> is_valid_state m source \<or> \<not> is_valid_state m destination
      then Inl UnknownStateError
      else case lookup_transition (transitions m) source event of
             None \<Rightarrow> Inr (m\<lparr>transitions := transitions m @ [(source, destination, event)]\<rparr>)
           | Some d \<Rightarrow> if d = destination then Inr m else Inl DuplicateTransitionError)"

text \<open>Modelled from the spec: \<^verbatim>\<open>FSM.is_valid_event\<close> (section 4.2), absent from the
  sources: true iff a transition exists from the source for the event.\<close>

definition is_valid_event :: "'w FSM \<Rightarrow> string \<Rightarrow> string \<Rightarrow> bool" where
  "is_valid_event m source event = (lookup_transition (transitions m) source event \<noteq> None)"

text \<open>Modelled from the spec: invoking a hook "if any" (section 4.2, steps 3 and 5):
  nothing happens when the state has none.\<close>

definition run_watcher :: "'w watcher option \<Rightarrow> string \<Rightarrow> string \<Rightarrow> 'w \<Rightarrow> error option \<times> 'w" where
  "run_watcher h state event w = (case h of None \<Rightarrow> (None, w) | Some f \<Rightarrow> f state event w)"

text \<open>Modelled from the spec: the \<open>on_enter\<close> hook of the destination (step 5), none
  for a name that is not in the registry (\<^verbatim>\<open>add_transition\<close> registers no such
  destination).\<close>

definition enter_hook_of :: "'w FSM \<Rightarrow> string \<Rightarrow> 'w watcher option" where
  "enter_hook_of m name = (case states m name of None \<Rightarrow> None | Some st \<Rightarrow> on_enter_hook st)"

text \<open>Modelled from the spec: \<^verbatim>\<open>FSM.process_event\<close> (section 4.2, steps 1 to 6), absent
  from the sources. The result is the destination or the error raised, together with
  the world as the call leaves it: a watcher that raised has already run.\<close>

definition process_event :: "'w FSM \<Rightarrow> string \<Rightarrow> string \<Rightarrow> 'w \<Rightarrow> (error + string) \<times> 'w" where
  "process_event m current_state event w =
     (case states m current_state of
        None \<Rightarrow> (Inl InvalidStateError, w)
      | Some st \<Rightarrow>
          (case lookup_transition (transitions m) current_state event of
             None \<Rightarrow> (Inl InvalidEventError, w)
           | Some destination \<Rightarrow>
               (case run_watcher (on_exit_hook st) current_state event w of
                  (Some err, w1) \<Rightarrow> (Inl err, w1)
                | (None, w1) \<Rightarrow>
                    (case run_watcher (enter_hook_of m destination) destination event w1 of
                       (Some err, w2) \<Rightarrow> (Inl err, w2)
                     | (None, w2) \<Rightarrow> (Inr destination, w2)))))"

subsection \<open>State names (states.py, lines 60 to 146)\<close>

definition NOSTATE :: "string option" where "NOSTATE = None"
definition MANAGEABLE :: string where "MANAGEABLE = ''manageable''"
definition AVAILABLE :: string where "AVAILABLE = ''available''"
definition ACTIVE :: string where "ACTIVE = ''active''"
definition DEPLOYWAIT :: string where "DEPLOYWAIT = ''wait call-back''"
definition DEPLOYING :: string where "DEPLOYING = ''deploying''"
definition DEPLOYFAIL :: string where "DEPLOYFAIL = ''deploy failed''"
definition DEPLOYDONE :: string where "DEPLOYDONE = ''deploy complete''"
definition DELETING :: string where "DELETING = ''deleting''"
definition DELETED :: string where "DELETED = ''deleted''"
definition ERROR :: string where "ERROR = ''error''"
definition REBUILD :: string where "REBUILD = ''rebuild''"
definition INSPECTING :: string where "INSPECTING = ''inspecting''"
definition INSPECTFAIL :: string where "INSPECTFAIL = ''inspect failed''"

subsection \<open>Watchers (states.py, lines 165 to 178)\<close>

text \<open>
  Both watchers call \<^verbatim>\<open>LOG.debug(msg, state, event)\<close>. The world they act on is the log:
  the sequence of calls made to the logger, each with its message and its arguments.
\<close>

datatype log_record = Debug string "string list"

definition on_exit :: "log_record list watcher" where
  "on_exit old_state event log =
     (None, log @ [Debug (''Exiting old state '%s' in response to event '%s'' @ [CHR 0x27]) [old_state, event]])"

definition on_enter :: "log_record list watcher" where
  "on_enter new_state event log =
     (None, log @ [Debug (''Entering new state '%s' in response to event '%s'' @ [CHR 0x27]) [new_state, event]])"

subsection \<open>The machine (states.py, lines 180 to 277)\<close>

text \<open>The statements of the module run in order; the first one that raises ends the
  import with its error.\<close>

fun exec_stmts :: "('m \<Rightarrow> error + 'm) list \<Rightarrow> 'm \<Rightarrow> error + 'm" where
  "exec_stmts [] m = Inr m"
| "exec_stmts (stmt # rest) m =
     (case stmt m of Inl err \<Rightarrow> Inl err | Inr m' \<Rightarrow> exec_stmts rest m')"

definition machine :: "error + log_record list FSM" where
  "machine = exec_stmts
     [add_state MANAGEABLE True None (Some on_enter) (Some on_exit),
      add_state AVAILABLE True None (Some on_enter) (Some on_exit),
      add_state ACTIVE True None (Some on_enter) (Some on_exit),
      add_state ERROR True None (Some on_enter) (Some on_exit),
      add_transition MANAGEABLE AVAILABLE ''provide'',
      add_transition AVAILABLE MANAGEABLE ''manage'',
      add_state DEPLOYING False (Some ACTIVE) (Some on_enter) (Some on_exit),
      add_state DEPLOYWAIT False (Some ACTIVE) (Some on_enter) (Some on_exit),
      add_state DEPLOYFAIL False (Some ACTIVE) (Some on_enter) (Some on_exit),
      add_state DELETING False (Some AVAILABLE) (Some on_enter) (Some on_exit),
      add_transition AVAILABLE DEPLOYING ''deploy'',
      add_state INSPECTING False (Some MANAGEABLE) (Some on_enter) (Some on_exit),
      add_state INSPECTFAIL False (Some MANAGEABLE) (Some on_enter) (Some on_exit),
      add_transition DEPLOYING DEPLOYFAIL ''fail'',
      add_transition DEPLOYFAIL DEPLOYING ''rebuild'',
      add_transition DEPLOYFAIL DEPLOYING ''deploy'',
      add_transition DEPLOYING DEPLOYWAIT ''wait'',
      add_transition DEPLOYWAIT DEPLOYING ''resume'',
      add_transition DEPLOYWAIT DEPLOYFAIL ''fail'',
      add_transition DEPLOYING ACTIVE ''done'',
      add_transition ACTIVE DEPLOYING ''rebuild'',
      add_transition ACTIVE DELETING ''delete'',
      add_transition DEPLOYWAIT DELETING ''delete'',
      add_transition DEPLOYFAIL DELETING ''delete'',
      add_transition DELETING AVAILABLE ''done'',
      add_transition DELETING ERROR ''error'',
      add_transition ERROR DEPLOYING ''rebuild'',
      add_transition ERROR DELETING ''delete'',
      add_transition MANAGEABLE INSPECTING ''inspect'',
      add_transition INSPECTING MANAGEABLE ''done'',
      add_transition INSPECTING INSPECTFAIL ''fail'',
      add_transition INSPECTFAIL MANAGEABLE ''manage'',
      add_transition INSPECTFAIL INSPECTING ''inspect'']
     FSM_init"

subsection \<open>The table of section 4.2\<close>

text \<open>
  The 23 rows of the table of section 4.2, in its order and with its columns (source,
  event, destination). The table names each state by the lower-case name of the
  module's constant: \<open>deploywait\<close>, \<open>deployfail\<close> and \<open>inspectfail\<close> are the states
  \<open>DEPLOYWAIT\<close>, \<open>DEPLOYFAIL\<close> and \<open>INSPECTFAIL\<close>, whose strings are \<open>wait call-back\<close>,
  \<open>deploy failed\<close> and \<open>inspect failed\<close>.
\<close>

definition table_4_2 :: "(string \<times> string \<times> string) list" where
  "table_4_2 =
     [(MANAGEABLE, ''provide'', AVAILABLE),
      (AVAILABLE, ''manage'', MANAGEABLE),
      (AVAILABLE, ''deploy'', DEPLOYING),
      (MANAGEABLE, ''inspect'', INSPECTING),
      (INSPECTING, ''done'', MANAGEABLE),
      (INSPECTING, ''fail'', INSPECTFAIL),
      (INSPECTFAIL, ''manage'', MANAGEABLE),
      (INSPECTFAIL, ''inspect'', INSPECTING),
      (DEPLOYING, ''fail'', DEPLOYFAIL),
      (DEPLOYFAIL, ''rebuild'', DEPLOYING),
      (DEPLOYFAIL, ''deploy'', DEPLOYING),
      (DEPLOYING, ''wait'', DEPLOYWAIT),
      (DEPLOYWAIT, ''resume'', DEPLOYING),
      (DEPLOYWAIT, ''fail'', DEPLOYFAIL),
      (DEPLOYING, ''done'', ACTIVE),
      (ACTIVE, ''rebuild'', DEPLOYING),
      (ACTIVE, ''delete'', DELETING),
      (DEPLOYWAIT, ''delete'', DELETING),
      (DEPLOYFAIL, ''delete'', DELETING),
      (DELETING, ''done'', AVAILABLE),
      (DELETING, ''error'', ERROR),
      (ERROR, ''rebuild'', DEPLOYING),
      (ERROR, ''delete'', DELETING)]"

subsection \<open>Auxiliary notions\<close>

text \<open>A state registered with both logging watchers, as every \<^verbatim>\<open>add_state\<close> call of
  the module does with \<^verbatim>\<open>**watchers\<close>.\<close>

definition watched :: "bool \<Rightarrow> string option \<Rightarrow> log_record list state_info" where
  "watched stbl tgt =
     \<lparr>stable = stbl, target = tgt, on_enter_hook = Some on_enter, on_exit_hook = Some on_exit\<rparr>"

text \<open>The engine that the statements of the module produce (lemma \<open>machine_eq\<close>).\<close>

definition machine_value :: "log_record list FSM" where
 "machine_value = \<lparr>states = 
   [MANAGEABLE \<mapsto> watched True None,
    AVAILABLE \<mapsto> watched True None,
    ACTIVE \<mapsto> watched True None,
    ERROR \<mapsto> watched True None,
    DEPLOYING \<mapsto> watched False (Some ACTIVE),
    DEPLOYWAIT \<mapsto> watched False (Some ACTIVE),
    DEPLOYFAIL \<mapsto> watched False (Some ACTIVE),
    DELETING \<mapsto> watched False (Some AVAILABLE),
    INSPECTING \<mapsto> watched False (Some MANAGEABLE),
    INSPECTFAIL \<mapsto> watched False (Some MANAGEABLE)],
  transitions = 
   [(MANAGEABLE, AVAILABLE, ''provide''),
    (AVAILABLE, MANAGEABLE, ''manage''),
    (AVAILABLE, DEPLOYING, ''deploy''),
    (DEPLOYING, DEPLOYFAIL, ''fail''),
    (DEPLOYFAIL, DEPLOYING, ''rebuild''),
    (DEPLOYFAIL, DEPLOYING, ''deploy''),
    (DEPLOYING, DEPLOYWAIT, ''wait''),
    (DEPLOYWAIT, DEPLOYING, ''resume''),
    (DEPLOYWAIT, DEPLOYFAIL, ''fail''),
    (DEPLOYING, ACTIVE, ''done''),
    (ACTIVE, DEPLOYING, ''rebuild''),
    (ACTIVE, DELETING, ''delete''),
    (DEPLOYWAIT, DELETING, ''delete''),
    (DEPLOYFAIL, DELETING, ''delete''),
    (DELETING, AVAILABLE, ''done''),
    (DELETING, ERROR, ''error''),
    (ERROR, DEPLOYING, ''rebuild''),
    (ERROR, DELETING, ''delete''),
    (MANAGEABLE, INSPECTING, ''inspect''),
    (INSPECTING, MANAGEABLE, ''done''),
    (INSPECTING, INSPECTFAIL, ''fail''),
    (INSPECTFAIL, MANAGEABLE, ''manage''),
    (INSPECTFAIL, INSPECTING, ''inspect'')]\<rparr>"

text \<open>A statement preserves a property of the engine if it holds after every run of
  the statement that does not raise, provided it held before.\<close>

definition preserves :: "('m \<Rightarrow> bool) \<Rightarrow> ('m \<Rightarrow> error + 'm) \<Rightarrow> bool" where
  "preserves P stmt = (\<forall>m m'. P m \<longrightarrow> stmt m = Inr m' \<longrightarrow> P m')"

text \<open>The invariant of section 3: a (source, event) pair has at most one destination
  among the registered triples.\<close>

definition deterministic :: "(string \<times> string \<times> string) list \<Rightarrow> bool" where
  "deterministic ts =
     (\<forall>s e d d'. (s, d, e) \<in> set ts \<and> (s, d', e) \<in> set ts \<longrightarrow> d = d')"

section \<open>Properties\<close>

subsection \<open>The engine's operations\<close>

lemma lookup_transition_mem:
  "lookup_transition ts s e = Some d \<Longrightarrow> (s, d, e) \<in> set ts"
  by (induction ts s e rule: lookup_transition.induct) (auto split: if_splits)

lemma lookup_transition_None:
  "lookup_transition ts s e = None \<longleftrightarrow> (\<forall>d. (s, d, e) \<notin> set ts)"
  by (induction ts s e rule: lookup_transition.induct) auto

lemma lookup_transition_append:
  "lookup_transition (ts @ us) s e =
     (case lookup_transition ts s e of None \<Rightarrow> lookup_transition us s e | Some d \<Rightarrow> Some d)"
  by (induction ts s e rule: lookup_transition.induct) auto

lemma deterministic_lookup:
  assumes "deterministic ts" and "(s, d, e) \<in> set ts"
  shows "lookup_transition ts s e = Some d"
proof (cases "lookup_transition ts s e")
  case None
  with assms(2) show ?thesis by (simp add: lookup_transition_None)
next
  case (Some d0)
  then have "(s, d0, e) \<in> set ts" by (rule lookup_transition_mem)
  with assms have "d0 = d" unfolding deterministic_def by blast
  with Some show ?thesis by simp
qed

lemma add_state_deterministic:
  "preserves (\<lambda>m. deterministic (transitions m)) (add_state n b t h1 h2)"
  by (auto simp: preserves_def add_state_def split: if_splits)

lemma add_transition_deterministic:
  "preserves (\<lambda>m. deterministic (transitions m)) (add_transition s d e)"
  unfolding preserves_def
proof (intro allI impI)
  fix m m' :: "'a FSM"
  assume det: "deterministic (transitions m)" and add: "add_transition s d e m = Inr m'"
  show "deterministic (transitions m')"
  proof (cases "lookup_transition (transitions m) s e")
    case None
    with add have m': "transitions m' = transitions m @ [(s, d, e)]"
      by (auto simp: add_transition_def split: if_splits)
    from None have "\<forall>x. (s, x, e) \<notin> set (transitions m)"
      by (simp add: lookup_transition_None)
    with det show ?thesis unfolding deterministic_def m' by auto
  next
    case (Some d0)
    with add have "m' = m" by (auto simp: add_transition_def split: if_splits)
    with det show ?thesis by simp
  qed
qed

lemma exec_stmts_invariant:
  assumes "list_all (preserves P) stmts" and "P m" and "exec_stmts stmts m = Inr m'"
  shows "P m'"
  using assms
proof (induction stmts arbitrary: m)
  case Nil
  then show ?case by simp
next
  case (Cons stmt rest)
  then show ?case by (cases "stmt m") (auto simp: preserves_def)
qed

lemma process_event_unknown_state:
  "\<not> is_valid_state m s \<Longrightarrow> process_event m s e w = (Inl InvalidStateError, w)"
  by (simp add: process_event_def is_valid_state_def)

lemma process_event_unknown_event:
  "is_valid_state m s \<Longrightarrow> \<not> is_valid_event m s e \<Longrightarrow>
     process_event m s e w = (Inl InvalidEventError, w)"
  by (auto simp: process_event_def is_valid_state_def is_valid_event_def)

lemma log_of_watchers:
  "on_exit s e w = (None, w @ [Debug (''Exiting old state '%s' in response to event '%s'' @ [CHR 0x27]) [s, e]])"
  "on_enter d e w = (None, w @ [Debug (''Entering new state '%s' in response to event '%s'' @ [CHR 0x27]) [d, e]])"
  by (simp_all add: on_exit_def on_enter_def)


subsection \<open>The value of the machine\<close>

lemmas names = MANAGEABLE_def AVAILABLE_def ACTIVE_def DEPLOYWAIT_def DEPLOYING_def DEPLOYFAIL_def
  DEPLOYDONE_def DELETING_def DELETED_def ERROR_def INSPECTING_def INSPECTFAIL_def


lemma machine_eq: "machine = Inr machine_value"
  by (simp add: machine_def add_state_def add_transition_def is_valid_state_def FSM_init_def names
      watched_def machine_value_def)

lemma states_built: "states machine_value s =
   (if s = INSPECTFAIL \<or> s = INSPECTING then Some (watched False (Some MANAGEABLE))
    else if s = DELETING then Some (watched False (Some AVAILABLE))
    else if s = DEPLOYFAIL \<or> s = DEPLOYWAIT \<or> s = DEPLOYING then Some (watched False (Some ACTIVE))
    else if s = ERROR \<or> s = ACTIVE \<or> s = AVAILABLE \<or> s = MANAGEABLE then Some (watched True None)
    else None)"
  by (simp add: machine_value_def)

lemma machine_deterministic: "deterministic (transitions machine_value)"
proof -
  have init: "deterministic (transitions (FSM_init :: log_record list FSM))"
    by (simp add: deterministic_def FSM_init_def)
  from machine_eq show ?thesis
    unfolding machine_def
    by (rule exec_stmts_invariant [where P = "\<lambda>m. deterministic (transitions m)", rotated 2])
       (simp_all add: init add_state_deterministic add_transition_deterministic)
qed

lemma hooks_built:
  "states machine_value s = Some st \<Longrightarrow>
     on_exit_hook st = Some on_exit \<and> on_enter_hook st = Some on_enter"
  by (auto simp: states_built watched_def split: if_splits)

lemma endpoints_built:
  "\<forall>(s, d, e) \<in> set (transitions machine_value).
      is_valid_state machine_value s \<and> is_valid_state machine_value d"
  by (simp add: is_valid_state_def machine_value_def names)

lemma process_event_built:
  assumes "lookup_transition (transitions machine_value) s e = Some d"
  shows "process_event machine_value s e w = (Inr d, snd (on_enter d e (snd (on_exit s e w))))"
proof -
  from assms have "(s, d, e) \<in> set (transitions machine_value)"
    by (rule lookup_transition_mem)
  with endpoints_built have "is_valid_state machine_value s" and "is_valid_state machine_value d"
    by auto
  then obtain st dt where st: "states machine_value s = Some st"
    and dt: "states machine_value d = Some dt"
    by (auto simp: is_valid_state_def)
  from hooks_built [OF st] hooks_built [OF dt] st dt assms show ?thesis
    by (simp add: process_event_def run_watcher_def enter_hook_of_def log_of_watchers)
qed


lemma table_lookup:
  "\<forall>(s, e, d) \<in> set table_4_2. lookup_transition (transitions machine_value) s e = Some d"
  by (simp add: table_4_2_def machine_value_def names)

lemma table_transitions:
  "set (transitions machine_value) = (\<lambda>(s, e, d). (s, d, e)) ` set table_4_2"
proof (rule equalityI)
  show "set (transitions machine_value) \<subseteq> (\<lambda>(s, e, d). (s, d, e)) ` set table_4_2"
    by (simp add: table_4_2_def machine_value_def names)
  show "(\<lambda>(s, e, d). (s, d, e)) ` set table_4_2 \<subseteq> set (transitions machine_value)"
    by (simp add: table_4_2_def machine_value_def names)
qed

lemma registered_states:
  "is_valid_state machine_value s \<longleftrightarrow>
     s \<in> {MANAGEABLE, AVAILABLE, ACTIVE, ERROR, DEPLOYING, DEPLOYWAIT, DEPLOYFAIL, DELETING,
          INSPECTING, INSPECTFAIL}"
  by (auto simp: is_valid_state_def states_built)

lemma stable_built:
  "is_valid_state machine_value s \<Longrightarrow>
     is_stable machine_value s = Inr (s \<in> {MANAGEABLE, AVAILABLE, ACTIVE, ERROR})"
  by (auto simp: is_valid_state_def is_stable_def states_built watched_def names split: if_splits)

lemma target_built:
  "target_for machine_value s =
     (if s = INSPECTFAIL \<or> s = INSPECTING then Inr (Some MANAGEABLE)
      else if s = DELETING then Inr (Some AVAILABLE)
      else if s = DEPLOYFAIL \<or> s = DEPLOYWAIT \<or> s = DEPLOYING then Inr (Some ACTIVE)
      else if s = ERROR \<or> s = ACTIVE \<or> s = AVAILABLE \<or> s = MANAGEABLE then Inr None
      else Inl UnknownStateError)"
  by (simp add: target_for_def states_built watched_def)

lemma process_event_failure_built:
  assumes "fst (process_event machine_value s e lg) = Inl err"
  shows "process_event machine_value s e lg = (Inl err, lg) \<and>
         (err = InvalidStateError \<and> \<not> is_valid_state machine_value s \<or>
          err = InvalidEventError \<and> is_valid_state machine_value s \<and>
            \<not> is_valid_event machine_value s e)"
proof (cases "is_valid_state machine_value s")
  case False
  with assms show ?thesis by (simp add: process_event_unknown_state)
next
  case True
  show ?thesis
  proof (cases "lookup_transition (transitions machine_value) s e")
    case None
    then have "\<not> is_valid_event machine_value s e" by (simp add: is_valid_event_def)
    with True assms show ?thesis by (simp add: process_event_unknown_event)
  next
    case (Some d)
    with assms show ?thesis by (simp add: process_event_built)
  qed
qed

section \<open>The claims\<close>

text \<open>
  Claim C1. The registered transition relation is exactly the 23-row table of section
  4.2: the import of the module succeeds; for every row (source, event, destination) of
  the table \<open>is_valid_event\<close> holds and \<open>process_event\<close> returns the destination; every
  registered triple is a row of the table, and no (source, event) pair outside the table
  is a valid event.
\<close>

theorem transition_table_exact:
  "\<exists>m. machine = Inr m \<and> length table_4_2 = 23 \<and>
     (\<forall>(s, e, d) \<in> set table_4_2.
         is_valid_event m s e \<and> fst (process_event m s e w) = Inr d) \<and>
     (\<forall>s d e. (s, d, e) \<in> set (transitions m) \<longrightarrow> (s, e, d) \<in> set table_4_2) \<and>
     (\<forall>s e. is_valid_event m s e \<longrightarrow> (\<exists>d. (s, e, d) \<in> set table_4_2))"
proof (intro exI conjI)
  show "machine = Inr machine_value" by (rule machine_eq)
  show "length table_4_2 = 23" by (simp add: table_4_2_def)
  show "\<forall>(s, e, d) \<in> set table_4_2.
          is_valid_event machine_value s e \<and> fst (process_event machine_value s e w) = Inr d"
    using table_lookup by (auto simp: is_valid_event_def process_event_built)
  show reg: "\<forall>s d e. (s, d, e) \<in> set (transitions machine_value) \<longrightarrow> (s, e, d) \<in> set table_4_2"
    unfolding table_transitions by auto
  show "\<forall>s e. is_valid_event machine_value s e \<longrightarrow> (\<exists>d. (s, e, d) \<in> set table_4_2)"
  proof (intro allI impI)
    fix s e
    assume "is_valid_event machine_value s e"
    then obtain d where "lookup_transition (transitions machine_value) s e = Some d"
      by (auto simp: is_valid_event_def)
    then have "(s, d, e) \<in> set (transitions machine_value)" by (rule lookup_transition_mem)
    with reg show "\<exists>d. (s, e, d) \<in> set table_4_2" by blast
  qed
qed

text \<open>The row \<open>available, deploy, deploying\<close> of the table.\<close>

theorem transition_table_exact_witness:
  "\<exists>m. machine = Inr m \<and> is_valid_event m ''available'' ''deploy'' \<and>
       fst (process_event m ''available'' ''deploy'' []) = Inr ''deploying''"
proof -
  from transition_table_exact [of "[]"] obtain m where m: "machine = Inr m"
    and rows: "\<forall>(s, e, d) \<in> set table_4_2.
         is_valid_event m s e \<and> fst (process_event m s e []) = Inr d"
    by blast
  have "(''available'', ''deploy'', ''deploying'') \<in> set table_4_2"
    by (simp add: table_4_2_def names)
  with rows have "is_valid_event m ''available'' ''deploy'' \<and>
       fst (process_event m ''available'' ''deploy'' []) = Inr ''deploying''"
    by blast
  with m show ?thesis by blast
qed

text \<open>
  Claim C2. For every registered transition (source, destination, event) of the machine,
  \<open>process_event\<close> on (source, event) returns exactly the destination and runs the
  \<open>on_exit\<close> watcher of the source once, on (source, event), and then the \<open>on_enter\<close>
  watcher of the destination once, on (destination, event): neither raises, and the log
  grows by the exit record followed by the entry record.
\<close>

theorem registered_transition_runs_watchers:
  "\<exists>m. machine = Inr m \<and>
     (\<forall>s d e. (s, d, e) \<in> set (transitions m) \<longrightarrow>
        process_event m s e w = (Inr d, snd (on_enter d e (snd (on_exit s e w)))) \<and>
        fst (on_exit s e w) = None \<and>
        fst (on_enter d e (snd (on_exit s e w))) = None \<and>
        snd (on_enter d e (snd (on_exit s e w))) =
          w @ [Debug (''Exiting old state '%s' in response to event '%s'' @ [CHR 0x27]) [s, e],
               Debug (''Entering new state '%s' in response to event '%s'' @ [CHR 0x27]) [d, e]])"
proof (intro exI conjI allI impI)
  show "machine = Inr machine_value" by (rule machine_eq)
next
  fix s d e
  assume "(s, d, e) \<in> set (transitions machine_value)"
  with machine_deterministic have "lookup_transition (transitions machine_value) s e = Some d"
    by (rule deterministic_lookup)
  then show "process_event machine_value s e w =
      (Inr d, snd (on_enter d e (snd (on_exit s e w))))"
    by (rule process_event_built)
qed (simp_all add: log_of_watchers)

text \<open>The transition from \<open>available\<close> on \<open>deploy\<close>, on an empty log.\<close>

theorem registered_transition_runs_watchers_witness:
  "\<exists>m. machine = Inr m \<and>
     process_event m ''available'' ''deploy'' [] =
       (Inr ''deploying'',
        [Debug (''Exiting old state '%s' in response to event '%s'' @ [CHR 0x27])
           [''available'', ''deploy''],
         Debug (''Entering new state '%s' in response to event '%s'' @ [CHR 0x27])
           [''deploying'', ''deploy'']])"
proof -
  from registered_transition_runs_watchers [of "[]"] obtain m where m: "machine = Inr m"
    and run: "\<forall>s d e. (s, d, e) \<in> set (transitions m) \<longrightarrow>
        process_event m s e [] = (Inr d, snd (on_enter d e (snd (on_exit s e [])))) \<and>
        fst (on_exit s e []) = None \<and>
        fst (on_enter d e (snd (on_exit s e []))) = None \<and>
        snd (on_enter d e (snd (on_exit s e []))) =
          [] @ [Debug (''Exiting old state '%s' in response to event '%s'' @ [CHR 0x27]) [s, e],
               Debug (''Entering new state '%s' in response to event '%s'' @ [CHR 0x27]) [d, e]]"
    by blast
  from m have "m = machine_value" by (simp add: machine_eq)
  then have "(''available'', ''deploying'', ''deploy'') \<in> set (transitions m)"
    by (simp add: machine_value_def names)
  with run have "process_event m ''available'' ''deploy'' [] =
       (Inr ''deploying'',
        [Debug (''Exiting old state '%s' in response to event '%s'' @ [CHR 0x27])
           [''available'', ''deploy''],
         Debug (''Entering new state '%s' in response to event '%s'' @ [CHR 0x27])
           [''deploying'', ''deploy'']])"
    by simp
  with m show ?thesis by blast
qed

text \<open>
  Claim C3. For a registered state \<open>s\<close> of the machine, \<open>is_stable\<close> returns true if
  and only if \<open>s\<close> is one of manageable, available, active, error; the registered
  states are these four and the six others, which are not stable.
\<close>

theorem stable_states:
  "\<exists>m. machine = Inr m \<and>
     (\<forall>s. is_valid_state m s \<longrightarrow>
        is_stable m s = Inr (s \<in> {MANAGEABLE, AVAILABLE, ACTIVE, ERROR})) \<and>
     (\<forall>s. is_valid_state m s \<longleftrightarrow>
        s \<in> {MANAGEABLE, AVAILABLE, ACTIVE, ERROR, DEPLOYING, DEPLOYWAIT, DEPLOYFAIL, DELETING,
             INSPECTING, INSPECTFAIL})"
  using machine_eq stable_built registered_states by blast

text \<open>The states \<open>active\<close> (stable) and \<open>deploying\<close> (not stable).\<close>

theorem stable_states_witness:
  "\<exists>m. machine = Inr m \<and> is_valid_state m ''active'' \<and> is_stable m ''active'' = Inr True \<and>
       is_valid_state m ''deploying'' \<and> is_stable m ''deploying'' = Inr False"
proof -
  from stable_states obtain m where m: "machine = Inr m"
    and st: "\<forall>s. is_valid_state m s \<longrightarrow>
        is_stable m s = Inr (s \<in> {MANAGEABLE, AVAILABLE, ACTIVE, ERROR})"
    and reg: "\<forall>s. is_valid_state m s \<longleftrightarrow>
        s \<in> {MANAGEABLE, AVAILABLE, ACTIVE, ERROR, DEPLOYING, DEPLOYWAIT, DEPLOYFAIL, DELETING,
             INSPECTING, INSPECTFAIL}"
    by blast
  from reg have v: "is_valid_state m ''active''" "is_valid_state m ''deploying''"
    by (simp_all add: names)
  from st v(1) have a: "is_stable m ''active'' = Inr True"
    by (simp add: names)
  from st v(2) have b: "is_stable m ''deploying'' = Inr False"
    by (simp add: names)
  from m v a b show ?thesis by blast
qed

text \<open>
  Claim C4. \<open>target_for\<close> returns active for the deploying, deploy-wait and
  deploy-failed states, available for the deleting state, manageable for the inspecting
  and inspect-failed states, and none for each of the four stable states.
\<close>

theorem targets_of_states:
  "\<exists>m. machine = Inr m \<and>
     target_for m DEPLOYING = Inr (Some ACTIVE) \<and>
     target_for m DEPLOYWAIT = Inr (Some ACTIVE) \<and>
     target_for m DEPLOYFAIL = Inr (Some ACTIVE) \<and>
     target_for m DELETING = Inr (Some AVAILABLE) \<and>
     target_for m INSPECTING = Inr (Some MANAGEABLE) \<and>
     target_for m INSPECTFAIL = Inr (Some MANAGEABLE) \<and>
     target_for m MANAGEABLE = Inr NOSTATE \<and>
     target_for m AVAILABLE = Inr NOSTATE \<and>
     target_for m ACTIVE = Inr NOSTATE \<and>
     target_for m ERROR = Inr NOSTATE"
proof (intro exI conjI)
  show "machine = Inr machine_value" by (rule machine_eq)
qed (simp_all add: target_built NOSTATE_def, simp_all add: names)

text \<open>The targets of \<open>deploying\<close> and of \<open>active\<close>.\<close>

theorem targets_of_states_witness:
  "\<exists>m. machine = Inr m \<and> target_for m ''deploying'' = Inr (Some ''active'') \<and>
       target_for m ''active'' = Inr None"
  using targets_of_states by (simp add: names NOSTATE_def) blast

text \<open>
  Claim C5. In any engine, for a registered source and a (source, event) pair with no
  registered transition, \<open>process_event\<close> fails with \<open>InvalidEventError\<close> and leaves the
  world as it was, so no watcher ran; in the machine, \<open>active\<close> is registered, \<open>manage\<close>
  is not a valid event from it, and \<open>process_event\<close> on them fails with
  \<open>InvalidEventError\<close>.
\<close>

theorem unknown_event_rejected:
  "(is_valid_state m s \<and> \<not> is_valid_event m s e \<longrightarrow>
      process_event m s e w = (Inl InvalidEventError, w)) \<and>
   (\<exists>mm. machine = Inr mm \<and> is_valid_state mm ACTIVE \<and> \<not> is_valid_event mm ACTIVE ''manage'' \<and>
      (\<forall>lg. process_event mm ACTIVE ''manage'' lg = (Inl InvalidEventError, lg)))"
proof (intro conjI impI exI allI)
  show "machine = Inr machine_value" by (rule machine_eq)
  show v: "is_valid_state machine_value ACTIVE" by (simp add: registered_states)
  show e: "\<not> is_valid_event machine_value ACTIVE ''manage''"
    by (simp add: is_valid_event_def machine_value_def names)
  show "process_event machine_value ACTIVE ''manage'' lg = (Inl InvalidEventError, lg)" for lg
    using v e by (rule process_event_unknown_event)
qed (simp add: process_event_unknown_event)

text \<open>The pair \<open>available\<close>, \<open>delete\<close> in the machine.\<close>

theorem unknown_event_rejected_witness:
  "\<exists>m. machine = Inr m \<and> is_valid_state m ''available'' \<and>
       \<not> is_valid_event m ''available'' ''delete'' \<and>
       process_event m ''available'' ''delete'' [] = (Inl InvalidEventError, [])"
proof -
  have v: "is_valid_state machine_value ''available''"
    using registered_states [of "''available''"] by (simp add: names)
  have e: "\<not> is_valid_event machine_value ''available'' ''delete''"
    by (simp add: is_valid_event_def machine_value_def names)
  from unknown_event_rejected [of machine_value "''available''" "''delete''" "[]"] v e
  have "process_event machine_value ''available'' ''delete'' [] = (Inl InvalidEventError, [])"
    by blast
  with machine_eq v e show ?thesis by blast
qed

text \<open>
  Claim C6. In any engine, for a current state that is not registered and any event,
  \<open>process_event\<close> fails with \<open>InvalidStateError\<close>; that failure, and the failure on an
  unknown event, return no state and leave the world as it was. In the machine every
  failure of \<open>process_event\<close> is one of these two and leaves the log unchanged.
  \<open>process_event\<close> takes the engine and returns none (section 5: it only reads the
  tables), so the tables after a call are the tables before it; the node is part of the
  world outside the engine.
\<close>

theorem failure_leaves_world_unchanged:
  "(\<not> is_valid_state m s \<longrightarrow> process_event m s e w = (Inl InvalidStateError, w)) \<and>
   (is_valid_state m s \<and> \<not> is_valid_event m s e \<longrightarrow>
      process_event m s e w = (Inl InvalidEventError, w)) \<and>
   (\<exists>mm. machine = Inr mm \<and>
      (\<forall>s e lg err. fst (process_event mm s e lg) = Inl err \<longrightarrow>
         process_event mm s e lg = (Inl err, lg) \<and>
         (err = InvalidStateError \<and> \<not> is_valid_state mm s \<or>
          err = InvalidEventError \<and> is_valid_state mm s \<and> \<not> is_valid_event mm s e)))"
  using machine_eq process_event_failure_built
  by (auto simp: process_event_unknown_state process_event_unknown_event)

text \<open>The unregistered name \<open>deleted\<close>, with a log that already holds a record.\<close>

theorem failure_leaves_world_unchanged_witness:
  "\<exists>m. machine = Inr m \<and> \<not> is_valid_state m ''deleted'' \<and>
     process_event m ''deleted'' ''deploy'' [Debug ''earlier'' []] =
       (Inl InvalidStateError, [Debug ''earlier'' []])"
proof -
  have v: "\<not> is_valid_state machine_value ''deleted''"
    using registered_states [of "''deleted''"] by (simp add: names)
  from failure_leaves_world_unchanged
         [of machine_value "''deleted''" "''deploy''" "[Debug ''earlier'' []]"] v
  have "process_event machine_value ''deleted'' ''deploy'' [Debug ''earlier'' []] =
       (Inl InvalidStateError, [Debug ''earlier'' []])"
    by blast
  with machine_eq v show ?thesis by blast
qed

text \<open>
  Claim C7. After a call \<open>add_transition(s, d, e)\<close> that did not raise, the same call
  again does not raise and returns the engine unchanged, and a call with the same
  \<open>(s, e)\<close> and a different destination raises \<open>DuplicateTransitionError\<close>. The
  different destination is a registered state: section 4.2 gives \<open>UnknownStateError\<close>
  for a destination that was never registered.
\<close>

theorem add_transition_idempotent:
  assumes "add_transition s d e m = Inr m'"
  shows "add_transition s d e m' = Inr m' \<and>
         (d' \<noteq> d \<and> is_valid_state m' d' \<longrightarrow>
            add_transition s d' e m' = Inl DuplicateTransitionError)"
proof -
  from assms have valid: "is_valid_state m s" "is_valid_state m d"
    by (auto simp: add_transition_def split: if_splits)
  have st: "states m' = states m" and lk: "lookup_transition (transitions m') s e = Some d"
  proof -
    show "states m' = states m"
      using assms by (auto simp: add_transition_def split: if_splits option.splits)
    show "lookup_transition (transitions m') s e = Some d"
      using assms
      by (auto simp: add_transition_def lookup_transition_append split: if_splits option.splits)
  qed
  from valid st have valid': "is_valid_state m' s" "is_valid_state m' d"
    by (simp_all add: is_valid_state_def)
  with lk show ?thesis by (simp add: add_transition_def)
qed

text \<open>Registering \<open>available, deploying, deploy\<close> again in the machine, and then
  \<open>available, active, deploy\<close>.\<close>

theorem add_transition_idempotent_witness:
  "add_transition ''available'' ''deploying'' ''deploy'' machine_value = Inr machine_value \<and>
   add_transition ''available'' ''deploying'' ''deploy'' machine_value = Inr machine_value \<and>
   ''active'' \<noteq> ''deploying'' \<and> is_valid_state machine_value ''active'' \<and>
   add_transition ''available'' ''active'' ''deploy'' machine_value = Inl DuplicateTransitionError"
proof -
  have first: "add_transition ''available'' ''deploying'' ''deploy'' machine_value = Inr machine_value"
    by (simp add: add_transition_def is_valid_state_def machine_value_def names)
  have v: "is_valid_state machine_value ''active''"
    using registered_states [of "''active''"] by (simp add: names)
  from add_transition_idempotent [OF first, of "''active''"] v first show ?thesis by simp
qed

text \<open>
  Claim C8. In the machine the registered triples map each (source, event) pair to at
  most one destination, so the destination that \<open>process_event\<close> looks up and returns
  for a registered triple is its destination. The invariant holds of the empty engine
  and every \<open>add_state\<close> and \<open>add_transition\<close> preserves it (lemma
  \<open>machine_deterministic\<close>).
\<close>

theorem transitions_functional:
  "\<exists>m. machine = Inr m \<and> deterministic (transitions m) \<and>
     (\<forall>s e d d'. (s, d, e) \<in> set (transitions m) \<and> (s, d', e) \<in> set (transitions m)
         \<longrightarrow> d = d') \<and>
     (\<forall>s d e w. (s, d, e) \<in> set (transitions m) \<longrightarrow>
         lookup_transition (transitions m) s e = Some d \<and>
         fst (process_event m s e w) = Inr d)"
proof (intro exI conjI allI impI)
  show "machine = Inr machine_value" by (rule machine_eq)
  show "deterministic (transitions machine_value)" by (rule machine_deterministic)
next
  fix s e d d'
  assume "(s, d, e) \<in> set (transitions machine_value) \<and>
          (s, d', e) \<in> set (transitions machine_value)"
  with machine_deterministic show "d = d'" unfolding deterministic_def by blast
next
  fix s d e and w :: "log_record list"
  assume "(s, d, e) \<in> set (transitions machine_value)"
  with machine_deterministic
  show lk: "lookup_transition (transitions machine_value) s e = Some d"
    by (rule deterministic_lookup)
  then show "fst (process_event machine_value s e w) = Inr d"
    by (simp add: process_event_built)
qed

text \<open>The pair \<open>deploying\<close>, \<open>done\<close>: registered to \<open>active\<close>, hence not to
  \<open>deploy failed\<close>.\<close>

theorem transitions_functional_witness:
  "\<exists>m. machine = Inr m \<and> (''deploying'', ''active'', ''done'') \<in> set (transitions m) \<and>
     (''deploying'', ''deploy failed'', ''done'') \<notin> set (transitions m) \<and>
     fst (process_event m ''deploying'' ''done'' []) = Inr ''active''"
proof -
  from transitions_functional obtain m where m: "machine = Inr m"
    and fn: "\<forall>s e d d'. (s, d, e) \<in> set (transitions m) \<and> (s, d', e) \<in> set (transitions m)
         \<longrightarrow> d = d'"
    and run: "\<forall>s d e w. (s, d, e) \<in> set (transitions m) \<longrightarrow>
         lookup_transition (transitions m) s e = Some d \<and>
         fst (process_event m s e w) = Inr d"
    by blast
  from m have "m = machine_value" by (simp add: machine_eq)
  then have mem: "(''deploying'', ''active'', ''done'') \<in> set (transitions m)"
    by (simp add: machine_value_def names)
  have "(''deploying'', ''deploy failed'', ''done'') \<notin> set (transitions m)"
  proof
    assume "(''deploying'', ''deploy failed'', ''done'') \<in> set (transitions m)"
    with fn mem have "''active'' = ''deploy failed''" by blast
    then show False by simp
  qed
  moreover from run mem have "fst (process_event m ''deploying'' ''done'' []) = Inr ''active''"
    by blast
  ultimately show ?thesis using m mem by blast
qed

text \<open>
  Claim C9. Every registered state of the machine that is not stable has a target, and
  that target is a registered stable state; the target of any state, when there is one,
  is registered and stable. The states that are not stable are deploying, deploy-wait and
  deploy-failed (target active), deleting (target available), inspecting and
  inspect-failed (target manageable).
\<close>

theorem targets_are_stable:
  "\<exists>m. machine = Inr m \<and>
     (\<forall>s. is_valid_state m s \<and> is_stable m s = Inr False \<longrightarrow>
        (\<exists>t. target_for m s = Inr (Some t) \<and> is_valid_state m t \<and> is_stable m t = Inr True)) \<and>
     (\<forall>s t. target_for m s = Inr (Some t) \<longrightarrow> is_valid_state m t \<and> is_stable m t = Inr True) \<and>
     (\<forall>s. is_valid_state m s \<and> is_stable m s = Inr False \<longleftrightarrow>
        s \<in> {DEPLOYING, DEPLOYWAIT, DEPLOYFAIL, DELETING, INSPECTING, INSPECTFAIL}) \<and>
     (\<forall>s \<in> {DEPLOYING, DEPLOYWAIT, DEPLOYFAIL}. target_for m s = Inr (Some ACTIVE)) \<and>
     target_for m DELETING = Inr (Some AVAILABLE) \<and>
     (\<forall>s \<in> {INSPECTING, INSPECTFAIL}. target_for m s = Inr (Some MANAGEABLE))"
proof -
  have tgt: "is_valid_state machine_value t \<and> is_stable machine_value t = Inr True"
    if "target_for machine_value s = Inr (Some t)" for s t
  proof -
    from that have "t = MANAGEABLE \<or> t = AVAILABLE \<or> t = ACTIVE"
      by (auto simp: target_built split: if_splits)
    then have v: "is_valid_state machine_value t" and "t \<in> {MANAGEABLE, AVAILABLE, ACTIVE, ERROR}"
      by (auto simp: registered_states)
    with stable_built [OF v] show ?thesis by simp
  qed
  have unstable: "(is_valid_state machine_value s \<and> is_stable machine_value s = Inr False) \<longleftrightarrow>
        s \<in> {DEPLOYING, DEPLOYWAIT, DEPLOYFAIL, DELETING, INSPECTING, INSPECTFAIL}" for s
  proof
    assume a: "is_valid_state machine_value s \<and> is_stable machine_value s = Inr False"
    with stable_built [of s] have "s \<notin> {MANAGEABLE, AVAILABLE, ACTIVE, ERROR}" by auto
    with a show "s \<in> {DEPLOYING, DEPLOYWAIT, DEPLOYFAIL, DELETING, INSPECTING, INSPECTFAIL}"
      by (auto simp: registered_states)
  next
    assume a: "s \<in> {DEPLOYING, DEPLOYWAIT, DEPLOYFAIL, DELETING, INSPECTING, INSPECTFAIL}"
    then have v: "is_valid_state machine_value s" by (auto simp: registered_states)
    from a have "s \<notin> {MANAGEABLE, AVAILABLE, ACTIVE, ERROR}" by (auto simp: names)
    with stable_built [OF v] v
    show "is_valid_state machine_value s \<and> is_stable machine_value s = Inr False" by simp
  qed
  have listed: "(\<forall>s \<in> {DEPLOYING, DEPLOYWAIT, DEPLOYFAIL}. target_for machine_value s = Inr (Some ACTIVE))"
     "target_for machine_value DELETING = Inr (Some AVAILABLE)"
     "(\<forall>s \<in> {INSPECTING, INSPECTFAIL}. target_for machine_value s = Inr (Some MANAGEABLE))"
    by (simp_all add: target_built) (simp_all add: names)
  have has: "\<exists>t. target_for machine_value s = Inr (Some t) \<and> is_valid_state machine_value t \<and>
                 is_stable machine_value t = Inr True"
    if "is_valid_state machine_value s \<and> is_stable machine_value s = Inr False" for s
  proof -
    from that unstable
    have "s \<in> {DEPLOYING, DEPLOYWAIT, DEPLOYFAIL, DELETING, INSPECTING, INSPECTFAIL}" by blast
    with listed obtain t where "target_for machine_value s = Inr (Some t)" by auto
    with tgt show ?thesis by blast
  qed
  from machine_eq has tgt unstable listed show ?thesis by blast
qed

text \<open>The state \<open>deleting\<close>.\<close>

theorem targets_are_stable_witness:
  "\<exists>m. machine = Inr m \<and> is_valid_state m ''deleting'' \<and> is_stable m ''deleting'' = Inr False \<and>
     (\<exists>t. target_for m ''deleting'' = Inr (Some t) \<and> is_valid_state m t \<and>
          is_stable m t = Inr True)"
proof -
  from targets_are_stable obtain m where m: "machine = Inr m"
    and has: "\<forall>s. is_valid_state m s \<and> is_stable m s = Inr False \<longrightarrow>
        (\<exists>t. target_for m s = Inr (Some t) \<and> is_valid_state m t \<and> is_stable m t = Inr True)"
    and unstable: "\<forall>s. is_valid_state m s \<and> is_stable m s = Inr False \<longleftrightarrow>
        s \<in> {DEPLOYING, DEPLOYWAIT, DEPLOYFAIL, DELETING, INSPECTING, INSPECTFAIL}"
    by blast
  from unstable have u: "is_valid_state m ''deleting'' \<and> is_stable m ''deleting'' = Inr False"
    by (simp add: names)
  with has have "\<exists>t. target_for m ''deleting'' = Inr (Some t) \<and> is_valid_state m t \<and>
          is_stable m t = Inr True"
    by blast
  with m u show ?thesis by blast
qed

text \<open>
  Claim C10. The names \<open>DEPLOYDONE\<close> (\<open>deploy complete\<close>) and \<open>DELETED\<close>
  (\<open>deleted\<close>) are defined by the module and not registered with the machine:
  \<open>is_valid_state\<close> is false for both, and \<open>process_event\<close> with either as current
  state fails with \<open>InvalidStateError\<close> for every event.
\<close>

theorem unregistered_names:
  "\<exists>m. machine = Inr m \<and> DEPLOYDONE = ''deploy complete'' \<and> DELETED = ''deleted'' \<and>
     \<not> is_valid_state m DEPLOYDONE \<and> \<not> is_valid_state m DELETED \<and>
     (\<forall>e w. process_event m DEPLOYDONE e w = (Inl InvalidStateError, w)) \<and>
     (\<forall>e w. process_event m DELETED e w = (Inl InvalidStateError, w))"
proof -
  have v: "\<not> is_valid_state machine_value DEPLOYDONE" "\<not> is_valid_state machine_value DELETED"
    by (simp_all add: registered_states) (simp_all add: names)
  with machine_eq show ?thesis
    by (auto simp: process_event_unknown_state DEPLOYDONE_def DELETED_def)
qed

text \<open>Both names, on an empty log.\<close>

theorem unregistered_names_witness:
  "\<exists>m. machine = Inr m \<and> \<not> is_valid_state m ''deploy complete'' \<and>
     process_event m ''deploy complete'' ''done'' [] = (Inl InvalidStateError, []) \<and>
     process_event m ''deleted'' ''deploy'' [] = (Inl InvalidStateError, [])"
  using unregistered_names by (simp add: DEPLOYDONE_def DELETED_def) blast

end
